theory Spec2Isabelle
  imports Main
begin

section \<open>Data model of the todo-beads synchronisation module\<close>

text \<open>
  The module maps the todo list of an OpenCode session to issues of the beads tracker.
  Everything it does beyond computing values is an effect on two things: the mapping file
  \<^verbatim>\<open>.beads/opencode-todo-mapping.json\<close> and the tracker, reached through the shell command
  \<^verbatim>\<open>bd\<close>. Both are made explicit below.
\<close>

subsection \<open>JavaScript objects used as records\<close>

text \<open>
  A \<^verbatim>\<open>Record<string, V>\<close> is the list of its own properties in property order: the keys
  that are array indices (canonical decimal numerals below \<open>2^32 - 1\<close>) in ascending
  order, then the other keys in the order of their creation. \<^verbatim>\<open>obj[k] = v\<close> overwrites an
  own property in place and otherwise creates it at its place in that order;
  \<^verbatim>\<open>delete obj[k]\<close> removes it; \<^verbatim>\<open>Object.entries\<close> and \<^verbatim>\<open>JSON.stringify\<close> follow the list.
\<close>

type_synonym 'v dict = "(string \<times> 'v) list"

definition dict_get :: "'v dict \<Rightarrow> string \<Rightarrow> 'v option" where
  "dict_get d k = map_of d k"

definition digit_of :: "char \<Rightarrow> nat" where
  "digit_of c = length (takeWhile (\<lambda>d. d \<noteq> c) ''0123456789'')"

definition decimal :: "string \<Rightarrow> nat" where
  "decimal s = foldl (\<lambda>n c. 10 * n + digit_of c) 0 s"

definition array_index :: "string \<Rightarrow> nat option" where
  "array_index k =
     (case k of
        [] \<Rightarrow> None
      | c # cs \<Rightarrow>
          (if list_all (\<lambda>x. x \<in> set ''0123456789'') k \<and> (c \<noteq> CHR ''0'' \<or> cs = [])
              \<and> decimal k < 4294967295
           then Some (decimal k) else None))"

fun dict_replace :: "string \<Rightarrow> 'v \<Rightarrow> 'v dict \<Rightarrow> 'v dict" where
  "dict_replace k v [] = []"
| "dict_replace k v ((k', v') # d) = (if k' = k then (k, v) # d else (k', v') # dict_replace k v d)"

fun dict_insert_index :: "nat \<Rightarrow> string \<Rightarrow> 'v \<Rightarrow> 'v dict \<Rightarrow> 'v dict" where
  "dict_insert_index i k v [] = [(k, v)]"
| "dict_insert_index i k v ((k', v') # d) =
     (case array_index k' of
        None \<Rightarrow> (k, v) # (k', v') # d
      | Some j \<Rightarrow> (if j < i then (k', v') # dict_insert_index i k v d else (k, v) # (k', v') # d))"

definition dict_set :: "string \<Rightarrow> 'v \<Rightarrow> 'v dict \<Rightarrow> 'v dict" where
  "dict_set k v d =
     (if k \<in> fst ` set d then dict_replace k v d
      else (case array_index k of
              None \<Rightarrow> d @ [(k, v)]
            | Some i \<Rightarrow> dict_insert_index i k v d))"

fun dict_delete :: "string \<Rightarrow> 'v dict \<Rightarrow> 'v dict" where
  "dict_delete k [] = []"
| "dict_delete k ((k', v') # d) = (if k' = k then dict_delete k d else (k', v') # dict_delete k d)"

text \<open>
  The values the module reads out of such objects and interpolates into command lines:
  \<^verbatim>\<open>undefined\<close>, a string, a number, or the value of a property that the object inherits
  from \<^verbatim>\<open>Object.prototype\<close> (a built-in function or, for \<^verbatim>\<open>__proto__\<close>, the prototype
  itself). \<^verbatim>\<open>obj[k]\<close> finds an own property first, then an inherited one.
\<close>

datatype jsval = Undefined | Str string | Num int | Inherited string

definition object_prototype_keys :: "string list" where
  "object_prototype_keys =
     [''constructor'', ''__defineGetter__'', ''__defineSetter__'', ''hasOwnProperty'',
      ''__lookupGetter__'', ''__lookupSetter__'', ''isPrototypeOf'', ''propertyIsEnumerable'',
      ''toString'', ''valueOf'', ''__proto__'', ''toLocaleString'']"

definition js_lookup :: "('v \<Rightarrow> jsval) \<Rightarrow> 'v dict \<Rightarrow> string \<Rightarrow> jsval" where
  "js_lookup f d k =
     (case dict_get d k of
        Some v \<Rightarrow> f v
      | None \<Rightarrow> (if k \<in> set object_prototype_keys then Inherited k else Undefined))"

definition truthy :: "jsval \<Rightarrow> bool" where
  "truthy v = (case v of Undefined \<Rightarrow> False | Str s \<Rightarrow> s \<noteq> [] | Num n \<Rightarrow> n \<noteq> 0
               | Inherited k \<Rightarrow> True)"

text \<open>An issue id as it is stored and passed on: \<open>None\<close> is \<^verbatim>\<open>undefined\<close>.\<close>

definition of_id :: "string option \<Rightarrow> jsval" where
  "of_id v = (case v of None \<Rightarrow> Undefined | Some s \<Rightarrow> Str s)"

subsection \<open>Todos, issues and the mapping\<close>

text \<open>
  Status and priority of a todo are the strings they are at run time (the interface
  \<^verbatim>\<open>TodoItem\<close> narrows them to literal unions, the schema of the tool does not). Of an issue
  in the tracker's JSON, \<^verbatim>\<open>id\<close> and \<^verbatim>\<open>notes\<close> may be missing, the other fields are taken at
  the types the interface \<^verbatim>\<open>BeadsIssue\<close> declares, the priority a whole number.
\<close>

record TodoItem =
  todo_id :: string
  todo_content :: string
  todo_status :: string
  todo_priority :: string

record BeadsIssue =
  issue_id :: "string option"
  issue_title :: string
  issue_description :: "string option"
  issue_status :: string
  issue_priority :: int
  issue_type :: string
  issue_notes :: "string option"

text \<open>
  The mapping as the object the module works on: an id it stores is \<^verbatim>\<open>result.id\<close>, a
  string or \<^verbatim>\<open>undefined\<close>. \<open>MappingJson\<close> is the mapping as the file holds it:
  \<^verbatim>\<open>JSON.stringify\<close> leaves the properties out whose value is \<^verbatim>\<open>undefined\<close>.
\<close>

record TodoBeadsMapping =
  sessions :: "string option dict"
  todos :: "string option dict dict"
  lastSync :: int

record MappingJson =
  json_sessions :: "string dict"
  json_todos :: "string dict dict"
  json_lastSync :: int

definition defined_entries :: "string option dict \<Rightarrow> string dict" where
  "defined_entries d = concat (map (\<lambda>(k, v). case v of None \<Rightarrow> [] | Some s \<Rightarrow> [(k, s)]) d)"

definition stringify :: "TodoBeadsMapping \<Rightarrow> MappingJson" where
  "stringify m =
     \<lparr>json_sessions = defined_entries (sessions m),
      json_todos = map (\<lambda>(k, tm). (k, defined_entries tm)) (todos m),
      json_lastSync = lastSync m\<rparr>"

definition parse_mapping :: "MappingJson \<Rightarrow> TodoBeadsMapping" where
  "parse_mapping j =
     \<lparr>sessions = map (\<lambda>(k, s). (k, Some s)) (json_sessions j),
      todos = map (\<lambda>(k, tm). (k, map (\<lambda>(t, s). (t, Some s)) tm)) (json_todos j),
      lastSync = json_lastSync j\<rparr>"

subsection \<open>Translation tables\<close>

definition PRIORITY_TO_BEADS :: "int dict" where
  "PRIORITY_TO_BEADS = [(''high'', 1), (''medium'', 2), (''low'', 3)]"

definition PRIORITY_FROM_BEADS :: "(int \<times> string) list" where
  "PRIORITY_FROM_BEADS = [(0, ''high''), (1, ''high''), (2, ''medium''), (3, ''low''), (4, ''low'')]"

definition STATUS_TO_BEADS :: "string dict" where
  "STATUS_TO_BEADS = [(''pending'', ''open''), (''in_progress'', ''in_progress''),
     (''completed'', ''closed''), (''cancelled'', ''closed'')]"

text \<open>
  \<^verbatim>\<open>PRIORITY_TO_BEADS[p] ?? 2\<close>, \<^verbatim>\<open>STATUS_TO_BEADS[s]\<close> and
  \<^verbatim>\<open>PRIORITY_FROM_BEADS[n] ?? "medium"\<close>. The key of the last is the numeral of a number,
  which names no inherited property.
\<close>

definition priority_to_beads :: "string \<Rightarrow> jsval" where
  "priority_to_beads p =
     (case js_lookup Num PRIORITY_TO_BEADS p of Undefined \<Rightarrow> Num 2 | v \<Rightarrow> v)"

definition status_to_beads :: "string \<Rightarrow> jsval" where
  "status_to_beads s = js_lookup Str STATUS_TO_BEADS s"

definition priority_from_beads :: "int \<Rightarrow> string" where
  "priority_from_beads n = (case map_of PRIORITY_FROM_BEADS n of Some p \<Rightarrow> p | None \<Rightarrow> ''medium'')"

subsection \<open>The world: mapping file, tracker, clock\<close>

text \<open>
  The mapping file is absent, unreadable, not JSON, or holds JSON: that of a mapping
  document; a value without a member \<^verbatim>\<open>sessions\<close> (\<^verbatim>\<open>null\<close>, a number, a string, an array,
  an object such as \<^verbatim>\<open>{}\<close>); or a value with a member \<^verbatim>\<open>sessions\<close> that is not a mapping
  document all the same. What the code does with the last depends on the value, and the
  embedding does not follow it there: it answers \<open>NotModelled\<close>.
\<close>

datatype file_state = FAbsent | FUnreadable | FMalformed | FDoc MappingJson | FNoSessions | FOtherJson

datatype parsed = Mapping TodoBeadsMapping | NoSessions | OtherJson

text \<open>
  The \<^verbatim>\<open>bd\<close> command lines the module runs, with the values it interpolates.
  \<open>BdCreate title type priority parent description\<close> is
  \<^verbatim>\<open>bd create title -t type -p priority [--parent parent] -d description --json\<close>.
\<close>

datatype cmd =
    BdShow jsval
  | BdCreate string string jsval "jsval option" string
  | BdUpdateStatus jsval jsval
  | BdUpdateNotes jsval string
  | BdClose jsval string

datatype event = Ran cmd | Wrote MappingJson | WriteFailed

text \<open>
  What a shell command gives back: a non-zero exit, or exit 0 with an output that parses to
  an issue object (\<open>Some\<close>) or does not (\<open>None\<close>).
\<close>

datatype outcome = ExitFailure | Stdout "BeadsIssue option"

text \<open>
  The environment answers as a function of everything done so far, so a tracker with state,
  with transient failures or with lost issues is an instance. \<open>fs_write\<close> says how
  \<^verbatim>\<open>mkdir\<close> followed by \<^verbatim>\<open>writeFile\<close> ends: the document is written, or the call throws
  with the file untouched, or it throws with the file cut short (no longer JSON);
  \<open>date_now\<close> is \<^verbatim>\<open>Date.now()\<close> and \<open>today\<close> is
  \<^verbatim>\<open>new Date().toISOString().split("T")[0]\<close>.
\<close>

datatype fs_outcome = Written | Untouched | Truncated

record env =
  bd :: "event list \<Rightarrow> cmd \<Rightarrow> outcome"
  fs_write :: "event list \<Rightarrow> fs_outcome"
  date_now :: "event list \<Rightarrow> int"
  today :: "event list \<Rightarrow> string"

record world =
  mapping_file :: file_state
  trace :: "event list"

datatype error = SessionIssueError | BeadsIssueError string | FsError | TypeError | NotModelled

text \<open>\<^verbatim>\<open>await $`...`.json()\<close>: the parsed issue, or \<open>None\<close> when the call throws.\<close>

definition sh_json :: "env \<Rightarrow> cmd \<Rightarrow> world \<Rightarrow> BeadsIssue option \<times> world" where
  "sh_json e c w =
     ((case bd e (trace w) c of ExitFailure \<Rightarrow> None | Stdout j \<Rightarrow> j),
      w\<lparr>trace := trace w @ [Ran c]\<rparr>)"

text \<open>\<^verbatim>\<open>await $`...`.quiet()\<close>: \<open>True\<close> when the command exits with 0, \<open>False\<close> when the call throws.\<close>

definition sh_quiet :: "env \<Rightarrow> cmd \<Rightarrow> world \<Rightarrow> bool \<times> world" where
  "sh_quiet e c w =
     ((case bd e (trace w) c of ExitFailure \<Rightarrow> False | Stdout j \<Rightarrow> True),
      w\<lparr>trace := trace w @ [Ran c]\<rparr>)"

section \<open>Mapping file management\<close>

definition emptyMapping :: TodoBeadsMapping where
  "emptyMapping = \<lparr>sessions = [], todos = [], lastSync = 0\<rparr>"

text \<open>
  The body of the \<^verbatim>\<open>try\<close> block of \<^verbatim>\<open>loadMapping\<close>: \<^verbatim>\<open>readFile\<close>, then \<^verbatim>\<open>JSON.parse\<close>,
  whose value is returned as it is.
\<close>

definition readAndParse :: "world \<Rightarrow> error + parsed" where
  "readAndParse w =
     (case mapping_file w of
        FAbsent \<Rightarrow> Inl FsError
      | FUnreadable \<Rightarrow> Inl FsError
      | FMalformed \<Rightarrow> Inl FsError
      | FDoc j \<Rightarrow> Inr (Mapping (parse_mapping j))
      | FNoSessions \<Rightarrow> Inr NoSessions
      | FOtherJson \<Rightarrow> Inr OtherJson)"

definition loadMapping :: "world \<Rightarrow> error + parsed" where
  "loadMapping w = (case readAndParse w of Inl _ \<Rightarrow> Inr (Mapping emptyMapping) | Inr v \<Rightarrow> Inr v)"

definition saveMapping :: "env \<Rightarrow> TodoBeadsMapping \<Rightarrow> world \<Rightarrow> (error + TodoBeadsMapping) \<times> world" where
  "saveMapping e mapping w =
     (let m = mapping\<lparr>lastSync := date_now e (trace w)\<rparr> in
      case fs_write e (trace w) of
        Written \<Rightarrow> (Inr m, w\<lparr>mapping_file := FDoc (stringify m), trace := trace w @ [Wrote (stringify m)]\<rparr>)
      | Untouched \<Rightarrow> (Inl FsError, w\<lparr>trace := trace w @ [WriteFailed]\<rparr>)
      | Truncated \<Rightarrow>
          (Inl FsError, w\<lparr>mapping_file := FMalformed, trace := trace w @ [WriteFailed]\<rparr>))"

section \<open>Session issue management\<close>

text \<open>
  Lines 145 to 159 of \<^verbatim>\<open>getOrCreateSessionIssue\<close>: create the epic, record its id, reset the
  session's todo map and save. Any exception inside the \<^verbatim>\<open>try\<close> block, the one of
  \<^verbatim>\<open>saveMapping\<close> included, is rethrown as the session-issue error.
\<close>

definition createSessionIssue ::
    "env \<Rightarrow> string \<Rightarrow> TodoBeadsMapping \<Rightarrow> world \<Rightarrow> (error + jsval \<times> TodoBeadsMapping) \<times> world" where
  "createSessionIssue e sessionID mapping w =
     (let shortSessionID = take 8 sessionID;
          timestamp = today e (trace w);
          title = ''OpenCode Session '' @ shortSessionID @ '' ('' @ timestamp @ '')''
      in case sh_json e (BdCreate title ''epic'' (Num 2) None
                           (''Tracks todos for OpenCode session '' @ sessionID)) w of
           (None, w1) \<Rightarrow> (Inl SessionIssueError, w1)
         | (Some result, w1) \<Rightarrow>
             (let issueID = issue_id result;
                  m1 = mapping\<lparr>sessions := dict_set sessionID issueID (sessions mapping)\<rparr>;
                  m2 = m1\<lparr>todos := dict_set sessionID [] (todos m1)\<rparr>
              in case saveMapping e m2 w1 of
                   (Inl _, w2) \<Rightarrow> (Inl SessionIssueError, w2)
                 | (Inr m3, w2) \<Rightarrow> (Inr (of_id issueID, m3), w2)))"

definition getOrCreateSessionIssue ::
    "env \<Rightarrow> string \<Rightarrow> TodoBeadsMapping \<Rightarrow> world \<Rightarrow> (error + jsval \<times> TodoBeadsMapping) \<times> world" where
  "getOrCreateSessionIssue e sessionID mapping w =
     (let recorded = js_lookup of_id (sessions mapping) sessionID
      in if truthy recorded then
           (case sh_json e (BdShow recorded) w of
              (None, w1) \<Rightarrow> createSessionIssue e sessionID mapping w1
            | (Some result, w1) \<Rightarrow>
                (if truthy (of_id (issue_id result)) then (Inr (recorded, mapping), w1)
                 else createSessionIssue e sessionID mapping w1))
         else createSessionIssue e sessionID mapping w)"

section \<open>Todo synchronisation\<close>

definition close_reason :: "string \<Rightarrow> string" where
  "close_reason st = (if st = ''cancelled'' then ''Cancelled in OpenCode'' else ''Completed'')"

definition createBeadsIssue ::
    "env \<Rightarrow> jsval \<Rightarrow> TodoItem \<Rightarrow> world \<Rightarrow> (error + string option) \<times> world" where
  "createBeadsIssue e sessionIssueID todo w =
     (let priority = priority_to_beads (todo_priority todo);
          notes = ''OpenCode todo ID: '' @ todo_id todo
      in case sh_json e (BdCreate (todo_content todo) ''task'' priority (Some sessionIssueID) notes) w of
           (None, w1) \<Rightarrow> (Inl (BeadsIssueError (todo_id todo)), w1)
         | (Some result, w1) \<Rightarrow>
             (if todo_status todo = ''in_progress'' then
                (case sh_quiet e (BdUpdateStatus (of_id (issue_id result)) (Str ''in_progress'')) w1 of
                   (False, w2) \<Rightarrow> (Inl (BeadsIssueError (todo_id todo)), w2)
                 | (True, w2) \<Rightarrow> (Inr (issue_id result), w2))
              else if todo_status todo = ''completed'' \<or> todo_status todo = ''cancelled'' then
                (case sh_quiet e (BdClose (of_id (issue_id result)) (close_reason (todo_status todo))) w1 of
                   (False, w2) \<Rightarrow> (Inl (BeadsIssueError (todo_id todo)), w2)
                 | (True, w2) \<Rightarrow> (Inr (issue_id result), w2))
              else (Inr (issue_id result), w1)))"

text \<open>\<^verbatim>\<open>updateBeadsIssue\<close> swallows the exception of its one command, so it returns a world only.\<close>

definition updateBeadsIssue :: "env \<Rightarrow> jsval \<Rightarrow> TodoItem \<Rightarrow> world \<Rightarrow> world" where
  "updateBeadsIssue e beadsID todo w =
     (let beadsStatus = status_to_beads (todo_status todo)
      in if beadsStatus = Str ''closed''
         then snd (sh_quiet e (BdClose beadsID (close_reason (todo_status todo))) w)
         else snd (sh_quiet e (BdUpdateStatus beadsID beadsStatus) w))"

text \<open>
  The template literal of \<^verbatim>\<open>closeSessionIssue\<close> prints the two counts in decimal:
  \<open>digits10\<close> is that print, \<open>summary_of\<close> the summary.
\<close>

fun digits10 :: "nat \<Rightarrow> string" where
  "digits10 n = (if n < 10 then [''0123456789'' ! n]
                 else digits10 (n div 10) @ [''0123456789'' ! (n mod 10)])"

declare digits10.simps [simp del]

definition summary_of :: "TodoItem list \<Rightarrow> string" where
  "summary_of ts =
     (let completed = length (filter (\<lambda>t. todo_status t = ''completed'') ts);
          cancelled = length (filter (\<lambda>t. todo_status t = ''cancelled'') ts)
      in ''Session complete: '' @ digits10 completed @ '' completed, ''
           @ digits10 cancelled @ '' cancelled'')"

definition closeSessionIssue :: "env \<Rightarrow> jsval \<Rightarrow> TodoItem list \<Rightarrow> world \<Rightarrow> world" where
  "closeSessionIssue e sessionIssueID ts w =
     (let summary = summary_of ts
      in case sh_quiet e (BdUpdateNotes sessionIssueID summary) w of
           (False, w1) \<Rightarrow> w1
         | (True, w1) \<Rightarrow> snd (sh_quiet e (BdClose sessionIssueID summary) w1))"

text \<open>
  The loop of lines 190 to 202. \<open>todoMap\<close> is the object \<^verbatim>\<open>mapping.todos[sessionID]\<close>
  itself, so the map the loop returns is the one the mapping holds afterwards. A create
  that throws leaves the loop, and the function, at once.
\<close>

fun syncEach ::
    "env \<Rightarrow> jsval \<Rightarrow> TodoItem list \<Rightarrow> string option dict \<Rightarrow> world
       \<Rightarrow> (error + string option dict) \<times> world" where
  "syncEach e sessionIssueID [] todoMap w = (Inr todoMap, w)"
| "syncEach e sessionIssueID (todo # rest) todoMap w =
     (let existingBeadsID = js_lookup of_id todoMap (todo_id todo)
      in if truthy existingBeadsID
         then syncEach e sessionIssueID rest todoMap (updateBeadsIssue e existingBeadsID todo w)
         else (case createBeadsIssue e sessionIssueID todo w of
                 (Inl err, w1) \<Rightarrow> (Inl err, w1)
               | (Inr newBeadsID, w1) \<Rightarrow>
                   syncEach e sessionIssueID rest (dict_set (todo_id todo) newBeadsID todoMap) w1))"

text \<open>
  The loop of lines 205 to 214 over the entries of the todo map as they are when the loop
  starts; \<open>seen\<close> lists the ids of the incoming todos.
\<close>

fun closeDeleted ::
    "env \<Rightarrow> string list \<Rightarrow> (string \<times> string option) list \<Rightarrow> string option dict \<Rightarrow> world
       \<Rightarrow> string option dict \<times> world" where
  "closeDeleted e seen [] todoMap w = (todoMap, w)"
| "closeDeleted e seen ((todoID, beadsID) # entries) todoMap w =
     (if todoID \<notin> set seen
      then closeDeleted e seen entries (dict_delete todoID todoMap)
             (snd (sh_quiet e (BdClose (of_id beadsID) ''Todo removed from OpenCode'') w))
      else closeDeleted e seen entries todoMap w)"

text \<open>
  \<^verbatim>\<open>todos.every(...)\<close> of line 217, and the function itself. Every error is returned
  together with the world reached when it was thrown. A value without \<^verbatim>\<open>sessions\<close> makes
  \<^verbatim>\<open>mapping.sessions[sessionID]\<close> throw a \<^verbatim>\<open>TypeError\<close> before any command. For a session id
  that names a property of \<^verbatim>\<open>Object.prototype\<close> the code takes built-in objects of the
  process for the anchor and the todo map and may write to them, and the embedding does
  not follow it: it answers \<open>NotModelled\<close>. For every other session id the lookups of
  \<^verbatim>\<open>mapping.sessions[sessionID]\<close> and \<^verbatim>\<open>mapping.todos[sessionID]\<close> find own properties only.
\<close>

definition allComplete :: "TodoItem list \<Rightarrow> bool" where
  "allComplete ts = list_all (\<lambda>t. todo_status t = ''completed'' \<or> todo_status t = ''cancelled'') ts"

definition syncTodosToBeads :: "env \<Rightarrow> string \<Rightarrow> TodoItem list \<Rightarrow> world \<Rightarrow> (error + unit) \<times> world" where
  "syncTodosToBeads e sessionID ts w =
     (case loadMapping w of
        Inl err \<Rightarrow> (Inl err, w)
      | Inr NoSessions \<Rightarrow> (Inl TypeError, w)
      | Inr OtherJson \<Rightarrow> (Inl NotModelled, w)
      | Inr (Mapping mapping0) \<Rightarrow>
     (if sessionID \<in> set object_prototype_keys then (Inl NotModelled, w) else
     (case getOrCreateSessionIssue e sessionID mapping0 w of
        (Inl err, w1) \<Rightarrow> (Inl err, w1)
      | (Inr (sessionIssueID, mapping1), w1) \<Rightarrow>
          (let mapping2 = (case dict_get (todos mapping1) sessionID of
                             None \<Rightarrow> mapping1\<lparr>todos := dict_set sessionID [] (todos mapping1)\<rparr>
                           | Some _ \<Rightarrow> mapping1);
               todoMap = (case dict_get (todos mapping2) sessionID of None \<Rightarrow> [] | Some tm \<Rightarrow> tm)
           in case syncEach e sessionIssueID ts todoMap w1 of
                (Inl err, w2) \<Rightarrow> (Inl err, w2)
              | (Inr todoMap1, w2) \<Rightarrow>
                  (let (todoMap2, w3) = closeDeleted e (map todo_id ts) todoMap1 todoMap1 w2;
                       w4 = (if allComplete ts \<and> ts \<noteq> [] then closeSessionIssue e sessionIssueID ts w3
                             else w3);
                       mapping3 = mapping2\<lparr>todos := dict_set sessionID todoMap2 (todos mapping2)\<rparr>
                   in case saveMapping e mapping3 w4 of
                        (Inl err, w5) \<Rightarrow> (Inl err, w5)
                      | (Inr _, w5) \<Rightarrow> (Inr (), w5))))))"

section \<open>Reading todos back\<close>

text \<open>\<^verbatim>\<open>notes.includes(pat)\<close>: \<open>pat\<close> occurs in \<open>notes\<close> as a substring.\<close>

fun str_includes :: "string \<Rightarrow> string \<Rightarrow> bool" where
  "str_includes [] pat = (pat = [])"
| "str_includes (c # cs) pat = (take (length pat) (c # cs) = pat \<or> str_includes cs pat)"

definition beadsIssueToTodo :: "string \<Rightarrow> BeadsIssue \<Rightarrow> TodoItem" where
  "beadsIssueToTodo todoID issue =
     \<lparr>todo_id = todoID,
      todo_content = issue_title issue,
      todo_status =
        (if issue_status issue = ''in_progress'' then ''in_progress''
         else if issue_status issue = ''closed'' then
           (case issue_notes issue of
              None \<Rightarrow> ''completed''
            | Some notes \<Rightarrow> if str_includes notes ''Cancelled'' then ''cancelled'' else ''completed'')
         else ''pending''),
      todo_priority = priority_from_beads (issue_priority issue)\<rparr>"

fun readEach :: "env \<Rightarrow> (string \<times> string option) list \<Rightarrow> world \<Rightarrow> TodoItem list \<times> world" where
  "readEach e [] w = ([], w)"
| "readEach e ((todoID, beadsID) # entries) w =
     (case sh_json e (BdShow (of_id beadsID)) w of
        (None, w1) \<Rightarrow> readEach e entries w1
      | (Some result, w1) \<Rightarrow>
          (if truthy (of_id (issue_id result))
           then (let (rest, w2) = readEach e entries w1 in (beadsIssueToTodo todoID result # rest, w2))
           else readEach e entries w1))"

text \<open>
  \<open>readTodosFromBeads\<close> has no handler of its own: the \<^verbatim>\<open>TypeError\<close> of a value without
  \<^verbatim>\<open>sessions\<close> leaves it. \<^verbatim>\<open>mapping.todos[sessionID] || {}\<close> is an own property, or a
  property inherited from \<^verbatim>\<open>Object.prototype\<close>, or \<^verbatim>\<open>{}\<close>; the last two have no entries.
\<close>

definition readTodosFromBeads :: "env \<Rightarrow> string \<Rightarrow> world \<Rightarrow> (error + TodoItem list) \<times> world" where
  "readTodosFromBeads e sessionID w =
     (case loadMapping w of
        Inl err \<Rightarrow> (Inl err, w)
      | Inr NoSessions \<Rightarrow> (Inl TypeError, w)
      | Inr OtherJson \<Rightarrow> (Inl NotModelled, w)
      | Inr (Mapping mapping) \<Rightarrow>
          (let sessionIssueID = js_lookup of_id (sessions mapping) sessionID
           in if \<not> truthy sessionIssueID then (Inr [], w)
              else (let todoMap = (case dict_get (todos mapping) sessionID of None \<Rightarrow> [] | Some tm \<Rightarrow> tm);
                        (ts, w1) = readEach e todoMap w
                    in (Inr ts, w1))))"

section \<open>Notions used in the statements\<close>

text \<open>
  The first two statements of \<open>syncTodosToBeads\<close> (lines 176 to 179): the mapping is
  loaded and the anchor of the session resolved. \<open>loaded\<close> is the mapping the call works
  on when the file is absent, unreadable, not JSON or a mapping document.
\<close>

definition sync_anchor ::
    "env \<Rightarrow> string \<Rightarrow> world \<Rightarrow> (error + jsval \<times> TodoBeadsMapping) \<times> world" where
  "sync_anchor e sessionID w =
     (case loadMapping w of
        Inl err \<Rightarrow> (Inl err, w)
      | Inr NoSessions \<Rightarrow> (Inl TypeError, w)
      | Inr OtherJson \<Rightarrow> (Inl NotModelled, w)
      | Inr (Mapping mapping0) \<Rightarrow>
          (if sessionID \<in> set object_prototype_keys then (Inl NotModelled, w)
           else getOrCreateSessionIssue e sessionID mapping0 w))"

definition loaded :: "world \<Rightarrow> TodoBeadsMapping" where
  "loaded w = (case mapping_file w of FDoc j \<Rightarrow> parse_mapping j | _ \<Rightarrow> emptyMapping)"

text \<open>
  The file is absent, unreadable, not JSON or a mapping document, and the session id names
  no property of \<^verbatim>\<open>Object.prototype\<close>: the calls the embedding follows.
\<close>

definition followed :: "string \<Rightarrow> world \<Rightarrow> bool" where
  "followed sessionID w \<longleftrightarrow>
     mapping_file w \<noteq> FNoSessions \<and> mapping_file w \<noteq> FOtherJson
     \<and> sessionID \<notin> set object_prototype_keys"

text \<open>
  The todo map of a session in the mapping (empty when the session has none), the same in a
  document of the file, and the correlation of a task of a session in a document.
\<close>

definition session_map :: "TodoBeadsMapping \<Rightarrow> string \<Rightarrow> string option dict" where
  "session_map m sessionID = (case dict_get (todos m) sessionID of None \<Rightarrow> [] | Some tm \<Rightarrow> tm)"

definition json_session_map :: "MappingJson \<Rightarrow> string \<Rightarrow> string dict" where
  "json_session_map j sessionID = (case dict_get (json_todos j) sessionID of None \<Rightarrow> [] | Some tm \<Rightarrow> tm)"

definition correlation :: "MappingJson \<Rightarrow> string \<Rightarrow> string \<Rightarrow> string option" where
  "correlation j sessionID todoID = dict_get (json_session_map j sessionID) todoID"

text \<open>The events a call added to the trace, and the documents written among some events.\<close>

definition events_since :: "world \<Rightarrow> world \<Rightarrow> event list" where
  "events_since w w' = drop (length (trace w)) (trace w')"

fun persists :: "event list \<Rightarrow> MappingJson list" where
  "persists [] = []"
| "persists (Wrote m # evs) = m # persists evs"
| "persists (Ran c # evs) = persists evs"
| "persists (WriteFailed # evs) = persists evs"

fun is_create :: "cmd \<Rightarrow> bool" where
  "is_create (BdCreate title ty p parent d) = True"
| "is_create c = False"

text \<open>The command is a \<^verbatim>\<open>bd close\<close> with the given reason.\<close>

fun closes_with :: "string \<Rightarrow> cmd \<Rightarrow> bool" where
  "closes_with s (BdClose x r) = (r = s)"
| "closes_with s c = False"

text \<open>
  Two environments that differ at most in what the tracker answers to the commands in
  \<open>P\<close>.
\<close>

definition agree_except :: "(cmd \<Rightarrow> bool) \<Rightarrow> env \<Rightarrow> env \<Rightarrow> bool" where
  "agree_except P e e' \<longleftrightarrow>
     fs_write e' = fs_write e \<and> date_now e' = date_now e \<and> today e' = today e
     \<and> (\<forall>h c. \<not> P c \<longrightarrow> bd e' h c = bd e h c)"

text \<open>
  The issue a \<^verbatim>\<open>bd show\<close> has found: the command succeeded and its output is an issue with
  a non-empty id.
\<close>

fun found_issue :: "outcome \<Rightarrow> BeadsIssue option" where
  "found_issue (Stdout (Some result)) = (if truthy (of_id (issue_id result)) then Some result else None)"
| "found_issue out = None"

text \<open>
  The task read back from the \<open>j\<close>-th correlation of \<open>es\<close>, if its issue is found; the
  \<^verbatim>\<open>show\<close> is asked after those of the correlations before it.
\<close>

definition read_back :: "env \<Rightarrow> world \<Rightarrow> (string \<times> string option) list \<Rightarrow> nat \<Rightarrow> TodoItem list" where
  "read_back e w es j =
     (case found_issue (bd e (trace w @ map (\<lambda>p. Ran (BdShow (of_id (snd p)))) (take j es))
                          (BdShow (of_id (snd (es ! j))))) of
        None \<Rightarrow> []
      | Some issue \<Rightarrow> [beadsIssueToTodo (fst (es ! j)) issue])"

text \<open>A world after some more tracker commands, the file untouched.\<close>

definition ran :: "cmd list \<Rightarrow> world \<Rightarrow> world" where
  "ran cs w = w\<lparr>trace := trace w @ map Ran cs\<rparr>"


definition create_cmd :: "jsval \<Rightarrow> TodoItem \<Rightarrow> cmd" where
  "create_cmd anchor t =
     BdCreate (todo_content t) ''task'' (priority_to_beads (todo_priority t)) (Some anchor)
       (''OpenCode todo ID: '' @ todo_id t)"

definition create_cmds :: "TodoItem \<Rightarrow> jsval \<Rightarrow> cmd list" where
  "create_cmds t newID =
     (if todo_status t = ''in_progress'' then [BdUpdateStatus newID (Str ''in_progress'')]
      else if todo_status t = ''completed'' \<or> todo_status t = ''cancelled''
      then [BdClose newID (close_reason (todo_status t))] else [])"

definition update_cmd :: "jsval \<Rightarrow> TodoItem \<Rightarrow> cmd" where
  "update_cmd b t =
     (if todo_status t = ''completed'' \<or> todo_status t = ''cancelled''
      then BdClose b (close_reason (todo_status t))
      else BdUpdateStatus b (status_to_beads (todo_status t)))"

fun update_cmds :: "string option dict \<Rightarrow> TodoItem list \<Rightarrow> cmd list" where
  "update_cmds tm [] = []"
| "update_cmds tm (t # ts) =
     (if truthy (js_lookup of_id tm (todo_id t))
      then [update_cmd (js_lookup of_id tm (todo_id t)) t] else [])
       @ update_cmds tm ts"

definition removed_cmds :: "string list \<Rightarrow> (string \<times> string option) list \<Rightarrow> cmd list" where
  "removed_cmds seen entries =
     map (\<lambda>p. BdClose (of_id (snd p)) ''Todo removed from OpenCode'')
       (filter (\<lambda>p. fst p \<notin> set seen) entries)"

definition anchor_close :: "env \<Rightarrow> jsval \<Rightarrow> TodoItem list \<Rightarrow> world \<Rightarrow> world" where
  "anchor_close e a ts w = (if allComplete ts \<and> ts \<noteq> [] then closeSessionIssue e a ts w else w)"

text \<open>What \<open>syncTodosToBeads\<close> does once the anchor is resolved (lines 181 to 224).\<close>

definition sync_after_anchor ::
    "env \<Rightarrow> string \<Rightarrow> TodoItem list \<Rightarrow> jsval \<Rightarrow> TodoBeadsMapping \<Rightarrow> world \<Rightarrow> (error + unit) \<times> world" where
  "sync_after_anchor e sid ts a m1 w1 =
     (case syncEach e a ts (session_map m1 sid) w1 of
        (Inl err, w2) \<Rightarrow> (Inl err, w2)
      | (Inr tm1, w2) \<Rightarrow>
          (case saveMapping e
                  (m1\<lparr>todos := dict_set sid (filter (\<lambda>p. fst p \<in> todo_id ` set ts) tm1) (todos m1)\<rparr>)
                  (anchor_close e a ts (ran (removed_cmds (map todo_id ts) tm1) w2)) of
             (Inl err, w5) \<Rightarrow> (Inl err, w5)
           | (Inr m', w5) \<Rightarrow> (Inr (), w5)))"

text \<open>
  The recorded anchor of the session is found: the call is one the embedding follows, the
  mapping names a non-empty anchor id and \<^verbatim>\<open>bd show\<close> answers with an issue that has a
  non-empty id.
\<close>

definition anchor_found :: "env \<Rightarrow> string \<Rightarrow> world \<Rightarrow> bool" where
  "anchor_found e sessionID w \<longleftrightarrow>
     followed sessionID w
     \<and> truthy (js_lookup of_id (sessions (loaded w)) sessionID)
     \<and> found_issue (bd e (trace w) (BdShow (js_lookup of_id (sessions (loaded w)) sessionID))) \<noteq> None"

text \<open>
  The commands before the new anchor is created: the \<^verbatim>\<open>show\<close> of the recorded anchor, if
  one is recorded.
\<close>

definition shows_before :: "string \<Rightarrow> world \<Rightarrow> cmd list" where
  "shows_before sid w =
     (if truthy (js_lookup of_id (sessions (loaded w)) sid)
      then [BdShow (js_lookup of_id (sessions (loaded w)) sid)] else [])"

subsection \<open>Concrete environments and inputs\<close>

text \<open>
  A tracker that answers every command: \<^verbatim>\<open>show\<close> finds every issue, \<^verbatim>\<open>create\<close> hands out
  an id numbered by the length of the history. The variants fail at one kind of command.
\<close>

definition issue_of :: "string option \<Rightarrow> BeadsIssue" where
  "issue_of i = \<lparr>issue_id = i, issue_title = ''write tests'', issue_description = None,
     issue_status = ''open'', issue_priority = 2, issue_type = ''task'', issue_notes = None\<rparr>"

definition shown :: "jsval \<Rightarrow> string option" where
  "shown v = (case v of Str s \<Rightarrow> Some s | _ \<Rightarrow> None)"

definition healthy :: env where
  "healthy =
     \<lparr>bd = (\<lambda>h c. case c of
               BdShow i \<Rightarrow> Stdout (Some (issue_of (shown i)))
             | BdCreate title ty p parent d \<Rightarrow>
                 Stdout (Some (issue_of (Some (''bd-'' @ digits10 (length h)))))
             | _ \<Rightarrow> Stdout None),
      fs_write = (\<lambda>h. Written),
      date_now = (\<lambda>h. 1000 + int (length h)),
      today = (\<lambda>h. ''2026-11-03'')\<rparr>"

definition fresh :: world where
  "fresh = \<lparr>mapping_file = FAbsent, trace = []\<rparr>"

definition todo_a :: TodoItem where
  "todo_a = \<lparr>todo_id = ''a'', todo_content = ''write tests'', todo_status = ''pending'',
     todo_priority = ''high''\<rparr>"

definition todo_b :: TodoItem where
  "todo_b = \<lparr>todo_id = ''b'', todo_content = ''ship it'', todo_status = ''completed'',
     todo_priority = ''low''\<rparr>"

definition todo_c :: TodoItem where
  "todo_c = \<lparr>todo_id = ''c'', todo_content = ''celebrate'', todo_status = ''cancelled'',
     todo_priority = ''medium''\<rparr>"

text \<open>The tracker that refuses to create an issue with the given title.\<close>

definition failing_create :: "string \<Rightarrow> env" where
  "failing_create title =
     healthy\<lparr>bd := (\<lambda>h c. case c of
                          BdCreate t ty p parent d \<Rightarrow> (if t = title then ExitFailure else bd healthy h c)
                        | _ \<Rightarrow> bd healthy h c)\<rparr>"

text \<open>The anchor command and the first document of session \<open>session-1234\<close> under \<open>healthy\<close>.\<close>

definition epic0 :: cmd where
  "epic0 = BdCreate ''OpenCode Session session- (2026-11-03)'' ''epic'' (Num 2) None
             ''Tracks todos for OpenCode session session-1234''"

definition doc0 :: MappingJson where
  "doc0 = \<lparr>json_sessions = [(''session-1234'', ''bd-0'')], json_todos = [(''session-1234'', [])],
            json_lastSync = 1001\<rparr>"

text \<open>The world after the first sync of \<open>[todo_a]\<close> from \<open>fresh\<close> under \<open>healthy\<close>.\<close>

definition doc1 :: MappingJson where
  "doc1 = \<lparr>json_sessions = [(''session-1234'', ''bd-0'')],
            json_todos = [(''session-1234'', [(''a'', ''bd-2'')])], json_lastSync = 1003\<rparr>"

definition synced :: world where
  "synced = \<lparr>mapping_file = FDoc doc1,
              trace = [Ran epic0, Wrote doc0, Ran (create_cmd (Str ''bd-0'') todo_a), Wrote doc1]\<rparr>"

text \<open>The tracker that no longer shows any issue.\<close>

definition lost_anchor :: env where
  "lost_anchor =
     healthy\<lparr>bd := (\<lambda>h c. case c of BdShow i \<Rightarrow> ExitFailure | _ \<Rightarrow> bd healthy h c)\<rparr>"

text \<open>
  The tracker that rejects every update of notes, the one that rejects every close with a
  summary of the session (as when the anchor is closed already), the one that rejects every
  close of a removed todo, and the one whose \<^verbatim>\<open>create\<close> answers with an issue without id.
\<close>

definition notes_rejected :: env where
  "notes_rejected =
     healthy\<lparr>bd := (\<lambda>h c. case c of BdUpdateNotes i n \<Rightarrow> ExitFailure | _ \<Rightarrow> bd healthy h c)\<rparr>"

definition close_rejected :: "string \<Rightarrow> env" where
  "close_rejected reason =
     healthy\<lparr>bd := (\<lambda>h c. case c of
                          BdClose i r \<Rightarrow> (if r = reason then ExitFailure else bd healthy h c)
                        | _ \<Rightarrow> bd healthy h c)\<rparr>"

text \<open>
  The file system on which every write fails and leaves the file cut short, and a world
  whose document records an empty issue id for todo \<open>a\<close>.
\<close>

definition write_cut :: env where
  "write_cut = healthy\<lparr>fs_write := (\<lambda>h. Truncated)\<rparr>"

definition doc_empty_id :: MappingJson where
  "doc_empty_id = \<lparr>json_sessions = [(''session-1234'', ''bd-0'')],
     json_todos = [(''session-1234'', [(''a'', [])])], json_lastSync = 1003\<rparr>"

definition unlinked :: world where
  "unlinked = \<lparr>mapping_file = FDoc doc_empty_id, trace = []\<rparr>"

definition no_id :: env where
  "no_id =
     healthy\<lparr>bd := (\<lambda>h c. case c of
                          BdCreate t ty p parent d \<Rightarrow>
                            (if ty = ''task'' then Stdout (Some (issue_of None)) else bd healthy h c)
                        | _ \<Rightarrow> bd healthy h c)\<rparr>"

section \<open>Lemmas about the operations\<close>

subsection \<open>Dictionaries\<close>

lemma map_of_dict_replace:
  "map_of (dict_replace k v d) k' = (if k' = k \<and> k \<in> fst ` set d then Some v else map_of d k')"
  by (induction d) (fastforce split: if_splits)+

lemma map_of_dict_insert_index:
  "map_of (dict_insert_index i k v d) k' = (if k' = k \<and> k \<notin> fst ` set d then Some v
     else if k' = k then map_of (dict_insert_index i k v d) k else map_of d k')"
  by (induction d) (auto split: option.splits)

lemma map_of_dict_insert_index_new:
  "k \<notin> fst ` set d \<Longrightarrow> map_of (dict_insert_index i k v d) k' = (if k' = k then Some v else map_of d k')"
  using map_of_dict_insert_index [of i k v d k'] by simp

lemma dict_get_set: "dict_get (dict_set k v d) k' = (if k' = k then Some v else dict_get d k')"
proof (cases "k \<in> fst ` set d")
  case True
  then show ?thesis by (simp add: dict_get_def dict_set_def map_of_dict_replace)
next
  case False
  then have "map_of d k = None" by (simp add: map_of_eq_None_iff)
  with False show ?thesis
    by (auto simp: dict_get_def dict_set_def map_of_dict_insert_index_new map_add_def
          split: option.splits)
qed

lemma dict_replace_same: "map_of d k = Some v \<Longrightarrow> dict_replace k v d = d"
  by (induction d) (auto split: if_splits)

lemma dict_set_same: "dict_get d k = Some v \<Longrightarrow> dict_set k v d = d"
proof -
  assume a: "dict_get d k = Some v"
  then have "k \<in> fst ` set d" by (auto simp: dict_get_def dest: map_of_SomeD intro: rev_image_eqI)
  with a show ?thesis by (simp add: dict_set_def dict_get_def dict_replace_same)
qed

lemma map_fst_dict_replace: "map fst (dict_replace k v d) = map fst d"
  by (induction d) auto

lemma keys_dict_replace: "fst ` set (dict_replace k v d) = fst ` set d"
proof -
  have "set (map fst (dict_replace k v d)) = set (map fst d)"
    by (simp only: map_fst_dict_replace)
  then show ?thesis by simp
qed



lemma set_dict_replace: "set (dict_replace k v d) \<subseteq> insert (k, v) (set d)"
  by (induction d) (auto split: if_splits)

lemma set_dict_insert_index: "set (dict_insert_index i k v d) = insert (k, v) (set d)"
  by (induction d) (auto split: option.splits if_splits)

lemma keys_dict_insert_index: "fst ` set (dict_insert_index i k v d) = insert k (fst ` set d)"
  by (simp add: set_dict_insert_index)

lemma keys_dict_set: "fst ` set (dict_set k v d) = insert k (fst ` set d)"
  by (auto simp: dict_set_def keys_dict_replace keys_dict_insert_index split: option.splits)

lemma set_dict_set: "set (dict_set k v d) \<subseteq> insert (k, v) (set d)"
  using set_dict_replace [of k v d]
  by (auto simp: dict_set_def set_dict_insert_index split: option.splits)

lemma dict_replace_replace: "dict_replace k v (dict_replace k v' d) = dict_replace k v d"
  by (induction d) auto

lemma dict_replace_append_new:
  "k \<notin> fst ` set d \<Longrightarrow> dict_replace k v (d @ [(k, v')]) = d @ [(k, v)]"
  by (induction d) auto

lemma dict_replace_insert_index:
  "k \<notin> fst ` set d \<Longrightarrow> dict_replace k v (dict_insert_index i k v' d) = dict_insert_index i k v d"
  by (induction d) (auto split: option.splits)

lemma dict_set_set: "dict_set k v (dict_set k v' d) = dict_set k v d"
proof -
  have "k \<in> fst ` set (dict_set k v' d)" by (simp add: keys_dict_set)
  then have "dict_set k v (dict_set k v' d) = dict_replace k v (dict_set k v' d)"
    by (simp add: dict_set_def)
  also have "\<dots> = dict_set k v d"
    by (auto simp: dict_set_def dict_replace_replace dict_replace_append_new
          dict_replace_insert_index split: option.splits)
  finally show ?thesis .
qed

lemma dict_delete_filter: "dict_delete k d = filter (\<lambda>p. fst p \<noteq> k) d"
  by (induction d) auto

lemma dict_get_filter_keep:
  "P k \<Longrightarrow> dict_get (filter (\<lambda>p. P (fst p)) d) k = dict_get d k"
  by (induction d) (auto simp: dict_get_def)


lemma dict_get_None_iff: "dict_get d k = None \<longleftrightarrow> k \<notin> fst ` set d"
  by (simp add: dict_get_def map_of_eq_None_iff)


subsection \<open>Writing and parsing the mapping\<close>

lemma defined_entries_Nil [simp]: "defined_entries [] = []"
  by (simp add: defined_entries_def)

lemma defined_entries_Cons [simp]:
  "defined_entries ((k, v) # d) = (case v of None \<Rightarrow> [] | Some s \<Rightarrow> [(k, s)]) @ defined_entries d"
  by (simp add: defined_entries_def)

lemma dict_get_defined_Some:
  "dict_get d k = Some (Some s) \<Longrightarrow> dict_get (defined_entries d) k = Some s"
  by (induction d) (auto simp: dict_get_def split: option.splits if_splits)

lemma set_defined_entries: "set (defined_entries d) = {(k, s). (k, Some s) \<in> set d}"
  by (induction d) (auto split: option.splits)

lemma keys_defined_entries: "fst ` set (defined_entries d) = {k. \<exists>s. (k, Some s) \<in> set d}"
  by (force simp: set_defined_entries)

lemma dict_get_defined_None:
  "dict_get d k = None \<Longrightarrow> dict_get (defined_entries d) k = None"
  by (auto simp: dict_get_None_iff keys_defined_entries intro: rev_image_eqI)

lemma defined_entries_filter:
  "defined_entries (filter (\<lambda>p. P (fst p)) d) = filter (\<lambda>p. P (fst p)) (defined_entries d)"
  by (induction d) (auto split: option.splits)

lemma defined_entries_parsed [simp]: "defined_entries (map (\<lambda>(k, s). (k, Some s)) d) = d"
  by (induction d) auto

lemma stringify_parse [simp]: "stringify (parse_mapping j) = j"
proof -
  have "\<And>d :: string dict dict.
          map (\<lambda>(k, tm). (k, defined_entries tm)) (map (\<lambda>(k, tm). (k, map (\<lambda>(t, s). (t, Some s)) tm)) d) = d"
    by (induct_tac d) auto
  then show ?thesis by (simp add: stringify_def parse_mapping_def)
qed

lemma stringify_lastSync: "stringify (m\<lparr>lastSync := n\<rparr>) = (stringify m)\<lparr>json_lastSync := n\<rparr>"
  by (simp add: stringify_def)

lemma dict_get_map_values:
  "dict_get (map (\<lambda>(k, v). (k, f v)) d) k = map_option f (dict_get d k)"
  by (induction d) (auto simp: dict_get_def)

lemma json_todos_stringify:
  "dict_get (json_todos (stringify m)) s = map_option defined_entries (dict_get (todos m) s)"
  by (simp add: stringify_def dict_get_map_values)


lemma todos_parse:
  "dict_get (todos (parse_mapping j)) s = map_option (map (\<lambda>(t, i). (t, Some i))) (dict_get (json_todos j) s)"
  by (simp add: parse_mapping_def dict_get_map_values)

lemma session_map_parse:
  "session_map (parse_mapping j) s = map (\<lambda>(t, i). (t, Some i)) (json_session_map j s)"
  by (simp add: json_session_map_def session_map_def todos_parse split: option.splits)

lemma sessions_parse:
  "dict_get (sessions (parse_mapping j)) s = map_option Some (dict_get (json_sessions j) s)"
  by (simp add: parse_mapping_def dict_get_map_values)

lemma lookup_parsed:
  "js_lookup of_id (map (\<lambda>(t, i). (t, Some i)) d) k = js_lookup Str d k"
  by (simp add: js_lookup_def dict_get_map_values of_id_def split: option.splits)

subsection \<open>Commands appended to the trace\<close>

lemma ran_Nil [simp]: "ran [] w = w"
  by (simp add: ran_def)

lemma ran_ran [simp]: "ran cs' (ran cs w) = ran (cs @ cs') w"
  by (simp add: ran_def)

lemma ran_fields [simp]:
  "trace (ran cs w) = trace w @ map Ran cs" "mapping_file (ran cs w) = mapping_file w"
  by (simp_all add: ran_def)

lemma sh_json_ran: "snd (sh_json e c w) = ran [c] w"
  by (simp add: sh_json_def ran_def)

lemma sh_quiet_ran: "snd (sh_quiet e c w) = ran [c] w"
  by (simp add: sh_quiet_def ran_def)

lemma status_to_beads_closed:
  "status_to_beads s = Str ''closed'' \<longleftrightarrow> s = ''completed'' \<or> s = ''cancelled''"
  by (auto simp: status_to_beads_def STATUS_TO_BEADS_def js_lookup_def dict_get_def)

lemma updateBeadsIssue_ran: "updateBeadsIssue e b t w = ran [update_cmd b t] w"
  by (simp add: updateBeadsIssue_def update_cmd_def sh_quiet_ran status_to_beads_closed Let_def)

subsection \<open>The loops\<close>

lemma truthy_lookup:
  "truthy (js_lookup of_id tm k) \<longleftrightarrow>
     (\<exists>i. dict_get tm k = Some (Some i) \<and> i \<noteq> [])
     \<or> (dict_get tm k = None \<and> k \<in> set object_prototype_keys)"
  by (auto simp: truthy_def js_lookup_def of_id_def split: option.splits)

lemma lookup_own: "dict_get tm k = Some v \<Longrightarrow> js_lookup of_id tm k = of_id v"
  by (simp add: js_lookup_def)

lemma truthy_of_id: "truthy (of_id v) \<longleftrightarrow> (\<exists>i. v = Some i \<and> i \<noteq> [])"
  by (auto simp: truthy_def of_id_def split: option.splits)

lemma createBeadsIssue_ok:
  "createBeadsIssue e a t w = (Inr b, w') \<Longrightarrow>
     w' = ran (create_cmd a t # create_cmds t (of_id b)) w
     \<and> (\<exists>r. bd e (trace w) (create_cmd a t) = Stdout (Some r) \<and> issue_id r = b)"
  by (auto simp: createBeadsIssue_def create_cmd_def create_cmds_def sh_json_def sh_quiet_def ran_def
        Let_def split: outcome.splits option.splits if_splits bool.splits)

lemma createBeadsIssue_err:
  "createBeadsIssue e a t w = (Inl err, w') \<Longrightarrow>
     err = BeadsIssueError (todo_id t)
     \<and> (w' = ran [create_cmd a t] w \<or> (\<exists>b. w' = ran (create_cmd a t # create_cmds t b) w))"
  unfolding createBeadsIssue_def create_cmd_def create_cmds_def sh_json_def sh_quiet_def ran_def Let_def
  by (force split: outcome.splits option.splits if_splits bool.splits)

lemma create_cmds_no_create: "c \<in> set (create_cmds t b) \<Longrightarrow> \<not> is_create c"
  by (auto simp: create_cmds_def split: if_splits)

lemma syncEach_ran: "syncEach e a ts tm w = (r, w') \<Longrightarrow> \<exists>cs. w' = ran cs w"
proof (induction ts arbitrary: tm w)
  case Nil
  then show ?case by (auto intro: exI [of _ "[]"])
next
  case (Cons t ts)
  show ?case
  proof (cases "truthy (js_lookup of_id tm (todo_id t))")
    case True
    with Cons.prems
    have "syncEach e a ts tm (ran [update_cmd (js_lookup of_id tm (todo_id t)) t] w) = (r, w')"
      by (simp add: updateBeadsIssue_ran)
    from Cons.IH [OF this] show ?thesis by auto
  next
    case False
    show ?thesis
    proof (cases "createBeadsIssue e a t w")
      case (Pair res w1)
      show ?thesis
      proof (cases res)
        case (Inl err)
        with Pair False Cons.prems have "w' = w1" by simp
        with createBeadsIssue_err [of e a t w err w1] Pair Inl show ?thesis by auto
      next
        case (Inr b)
        with Pair False Cons.prems
        have "syncEach e a ts (dict_set (todo_id t) b tm) w1 = (r, w')" by simp
        from Cons.IH [OF this] obtain cs where "w' = ran cs w1" by auto
        moreover from createBeadsIssue_ok Pair Inr obtain cs1 where "w1 = ran cs1 w" by blast
        ultimately show ?thesis by auto
      qed
    qed
  qed
qed

lemma syncEach_all_existing:
  "\<forall>t\<in>set ts. truthy (js_lookup of_id tm (todo_id t)) \<Longrightarrow>
     syncEach e a ts tm w = (Inr tm, ran (update_cmds tm ts) w)"
  by (induction ts arbitrary: w) (auto simp: updateBeadsIssue_ran)

text \<open>The two branches of a step of the loop, the step having gone on.\<close>

lemma syncEach_step:
  assumes "syncEach e a (t # ts) tm w = (Inr tm', w')"
  obtains (update) "truthy (js_lookup of_id tm (todo_id t))"
      "syncEach e a ts tm (ran [update_cmd (js_lookup of_id tm (todo_id t)) t] w) = (Inr tm', w')"
    | (create) b where "\<not> truthy (js_lookup of_id tm (todo_id t))"
      "createBeadsIssue e a t w = (Inr b, ran (create_cmd a t # create_cmds t (of_id b)) w)"
      "syncEach e a ts (dict_set (todo_id t) b tm) (ran (create_cmd a t # create_cmds t (of_id b)) w)
         = (Inr tm', w')"
proof (cases "truthy (js_lookup of_id tm (todo_id t))")
  case True
  with assms update show ?thesis by (simp add: updateBeadsIssue_ran)
next
  case False
  with assms obtain b w1 where c: "createBeadsIssue e a t w = (Inr b, w1)"
    and s: "syncEach e a ts (dict_set (todo_id t) b tm) w1 = (Inr tm', w')"
    by (auto split: prod.splits sum.splits)
  from createBeadsIssue_ok [OF c] have "w1 = ran (create_cmd a t # create_cmds t (of_id b)) w"
    by simp
  with c s False create show ?thesis by simp
qed

lemma syncEach_keys_sub:
  "syncEach e a ts tm w = (Inr tm', w') \<Longrightarrow> fst ` set tm' \<subseteq> fst ` set tm \<union> todo_id ` set ts"
proof (induction ts arbitrary: tm w)
  case Nil
  then show ?case by simp
next
  case (Cons t ts)
  from Cons.prems show ?case
  proof (cases rule: syncEach_step)
    case update
    from Cons.IH [OF update(2)] show ?thesis by auto
  next
    case (create b)
    from Cons.IH [OF create(3)] show ?thesis by (auto simp: keys_dict_set)
  qed
qed

lemma syncEach_keys_sup:
  "syncEach e a ts tm w = (Inr tm', w') \<Longrightarrow> fst ` set tm \<subseteq> fst ` set tm'"
proof (induction ts arbitrary: tm w)
  case Nil
  then show ?case by simp
next
  case (Cons t ts)
  from Cons.prems show ?case
  proof (cases rule: syncEach_step)
    case update
    from Cons.IH [OF update(2)] show ?thesis .
  next
    case (create b)
    from Cons.IH [OF create(3)] show ?thesis by (auto simp: keys_dict_set)
  qed
qed

lemma syncEach_covers:
  "syncEach e a ts tm w = (Inr tm', w') \<Longrightarrow> t \<in> set ts \<Longrightarrow>
     todo_id t \<notin> set object_prototype_keys \<Longrightarrow> todo_id t \<in> fst ` set tm'"
proof (induction ts arbitrary: tm w)
  case Nil
  then show ?case by simp
next
  case (Cons u ts)
  from Cons.prems(1) show ?case
  proof (cases rule: syncEach_step)
    case update
    show ?thesis
    proof (cases "t = u")
      case True
      with update(1) Cons.prems(3) have "dict_get tm (todo_id t) \<noteq> None"
        by (auto simp: truthy_lookup)
      then have "todo_id t \<in> fst ` set tm" by (simp add: dict_get_None_iff)
      with syncEach_keys_sup [OF update(2)] show ?thesis by blast
    next
      case False
      with Cons.prems(2) have "t \<in> set ts" by simp
      from Cons.IH [OF update(2) this Cons.prems(3)] show ?thesis .
    qed
  next
    case (create b)
    show ?thesis
    proof (cases "t = u")
      case True
      have "todo_id u \<in> fst ` set (dict_set (todo_id u) b tm)" by (simp add: keys_dict_set)
      with syncEach_keys_sup [OF create(3)] True show ?thesis by blast
    next
      case False
      with Cons.prems(2) have "t \<in> set ts" by simp
      from Cons.IH [OF create(3) this Cons.prems(3)] show ?thesis .
    qed
  qed
qed


text \<open>When every create answers with an id, every id the loop records is defined.\<close>

lemma syncEach_defined:
  assumes "\<And>h c j. bd e h c = Stdout (Some j) \<Longrightarrow> is_create c \<Longrightarrow> issue_id j \<noteq> None"
  shows "syncEach e a ts tm w = (Inr tm', w') \<Longrightarrow> \<forall>p\<in>set tm. snd p \<noteq> None \<Longrightarrow>
     \<forall>p\<in>set tm'. snd p \<noteq> None"
proof (induction ts arbitrary: tm w)
  case Nil
  then show ?case by simp
next
  case (Cons t ts)
  from Cons.prems(1) show ?case
  proof (cases rule: syncEach_step)
    case update
    from Cons.IH [OF update(2) Cons.prems(2)] show ?thesis .
  next
    case (create b)
    from createBeadsIssue_ok [OF create(2)] obtain r where
      "bd e (trace w) (create_cmd a t) = Stdout (Some r)" "issue_id r = b" by blast
    with assms [of "trace w" "create_cmd a t" r] have "b \<noteq> None" by (simp add: create_cmd_def)
    with Cons.prems(2) set_dict_set [of "todo_id t" b tm]
    have "\<forall>p\<in>set (dict_set (todo_id t) b tm). snd p \<noteq> None" by auto
    from Cons.IH [OF create(3) this] show ?thesis .
  qed
qed


lemma closeDeleted_eq:
  "closeDeleted e seen entries tm w =
     (filter (\<lambda>p. fst p \<in> set seen \<or> fst p \<notin> fst ` set entries) tm,
      ran (removed_cmds seen entries) w)"
proof (induction entries arbitrary: tm w)
  case Nil
  then show ?case by (simp add: removed_cmds_def)
next
  case (Cons p entries)
  obtain k b where p: "p = (k, b)" by (cases p)
  show ?case
  proof (cases "k \<in> set seen")
    case True
    have "filter (\<lambda>q. fst q \<in> set seen \<or> fst q \<notin> fst ` set entries) tm
        = filter (\<lambda>q. fst q \<in> set seen \<or> fst q \<notin> fst ` set (p # entries)) tm"
      using True p by (intro filter_cong) auto
    with True p Cons.IH show ?thesis by (simp add: removed_cmds_def)
  next
    case False
    have "filter (\<lambda>q. fst q \<in> set seen \<or> fst q \<notin> fst ` set entries) (dict_delete k tm)
        = filter (\<lambda>q. fst q \<in> set seen \<or> fst q \<notin> fst ` set (p # entries)) tm"
      using False p unfolding dict_delete_filter filter_filter by (intro filter_cong) auto
    with False p Cons.IH show ?thesis by (simp add: removed_cmds_def sh_quiet_ran)
  qed
qed

lemma closeDeleted_self:
  "closeDeleted e seen tm tm w = (filter (\<lambda>p. fst p \<in> set seen) tm, ran (removed_cmds seen tm) w)"
proof -
  have "filter (\<lambda>p. fst p \<in> set seen \<or> fst p \<notin> fst ` set tm) tm = filter (\<lambda>p. fst p \<in> set seen) tm"
    by (intro filter_cong) auto
  then show ?thesis by (simp add: closeDeleted_eq)
qed

subsection \<open>The anchor: closing, saving, resolving\<close>

lemma closeSessionIssue_eq:
  "closeSessionIssue e a ts w =
     (if bd e (trace w) (BdUpdateNotes a (summary_of ts)) = ExitFailure
      then ran [BdUpdateNotes a (summary_of ts)] w
      else ran [BdUpdateNotes a (summary_of ts), BdClose a (summary_of ts)] w)"
  by (simp add: closeSessionIssue_def sh_quiet_def ran_def Let_def split: outcome.splits)

lemma saveMapping_ok:
  "saveMapping e m w = (Inr m', w') \<Longrightarrow>
     m' = m\<lparr>lastSync := date_now e (trace w)\<rparr>
     \<and> w' = w\<lparr>mapping_file := FDoc (stringify m'), trace := trace w @ [Wrote (stringify m')]\<rparr>"
  by (auto simp: saveMapping_def Let_def split: fs_outcome.splits)




lemma loadMapping_loaded:
  "mapping_file w \<noteq> FNoSessions \<Longrightarrow> mapping_file w \<noteq> FOtherJson \<Longrightarrow>
     loadMapping w = Inr (Mapping (loaded w))"
  by (simp add: loadMapping_def readAndParse_def loaded_def split: file_state.splits)

lemma sync_anchor_followed:
  "followed sid w \<Longrightarrow> sync_anchor e sid w = getOrCreateSessionIssue e sid (loaded w) w"
  by (simp add: sync_anchor_def followed_def loadMapping_loaded)



lemma getOrCreate_found:
  "anchor_found e sid w \<Longrightarrow>
     sync_anchor e sid w
       = (Inr (js_lookup of_id (sessions (loaded w)) sid, loaded w),
          ran [BdShow (js_lookup of_id (sessions (loaded w)) sid)] w)"
proof -
  assume a: "anchor_found e sid w"
  then have f: "followed sid w" by (simp add: anchor_found_def)
  from a show ?thesis
    unfolding sync_anchor_followed [OF f]
    unfolding anchor_found_def getOrCreateSessionIssue_def sh_json_def ran_def Let_def
    by (auto split: option.splits outcome.splits if_splits)
qed


subsection \<open>The stages of a forward sync\<close>

lemma syncTodosToBeads_after_anchor:
  "syncTodosToBeads e sid ts w =
     (case sync_anchor e sid w of
        (Inl err, w1) \<Rightarrow> (Inl err, w1)
      | (Inr (a, m1), w1) \<Rightarrow> sync_after_anchor e sid ts a m1 w1)"
proof (cases "followed sid w")
  case True
  then have l: "loadMapping w = Inr (Mapping (loaded w))" and s: "sid \<notin> set object_prototype_keys"
    by (simp_all add: followed_def loadMapping_loaded)
  show ?thesis
    unfolding syncTodosToBeads_def sync_anchor_def l
    by (auto simp: s sync_after_anchor_def session_map_def anchor_close_def closeDeleted_self
          dict_get_set dict_set_set Let_def
          split: prod.splits sum.splits option.splits)
next
  case False
  then show ?thesis
    by (auto simp: syncTodosToBeads_def sync_anchor_def followed_def loadMapping_def readAndParse_def
          split: file_state.splits)
qed

lemma persists_map_Ran [simp]: "persists (map Ran cs) = []"
  by (induction cs) auto

lemma persists_append [simp]: "persists (xs @ ys) = persists xs @ persists ys"
  by (induction xs rule: persists.induct) auto

lemma anchor_close_ran: "\<exists>cs. anchor_close e a ts w = ran cs w"
proof (cases "allComplete ts \<and> ts \<noteq> []")
  case True
  then show ?thesis
    by (cases "bd e (trace w) (BdUpdateNotes a (summary_of ts)) = ExitFailure")
       (auto simp: anchor_close_def closeSessionIssue_eq)
next
  case False
  then have "anchor_close e a ts w = ran [] w" by (auto simp: anchor_close_def)
  then show ?thesis by blast
qed

lemma events_since_append: "trace w' = trace w @ evs \<Longrightarrow> events_since w w' = evs"
  by (simp add: events_since_def)

lemma sync_after_anchor_ok:
  assumes "sync_after_anchor e sid ts a m1 w1 = (Inr (), w')"
  shows "\<exists>tm1 cs1 cs2 m'.
           syncEach e a ts (session_map m1 sid) w1 = (Inr tm1, ran cs1 w1)
         \<and> anchor_close e a ts (ran (cs1 @ removed_cmds (map todo_id ts) tm1) w1)
             = ran (cs1 @ removed_cmds (map todo_id ts) tm1 @ cs2) w1
         \<and> m' = m1\<lparr>todos := dict_set sid (filter (\<lambda>p. fst p \<in> todo_id ` set ts) tm1) (todos m1),
                    lastSync := date_now e (trace w1 @ map Ran (cs1 @ removed_cmds (map todo_id ts) tm1 @ cs2))\<rparr>
         \<and> trace w' = trace w1 @ map Ran (cs1 @ removed_cmds (map todo_id ts) tm1 @ cs2)
                         @ [Wrote (stringify m')]
         \<and> mapping_file w' = FDoc (stringify m')"
proof -
  from assms obtain tm1 w2 m' where
    loop: "syncEach e a ts (session_map m1 sid) w1 = (Inr tm1, w2)"
    and save: "saveMapping e
        (m1\<lparr>todos := dict_set sid (filter (\<lambda>p. fst p \<in> todo_id ` set ts) tm1) (todos m1)\<rparr>)
        (anchor_close e a ts (ran (removed_cmds (map todo_id ts) tm1) w2)) = (Inr m', w')"
    by (auto simp: sync_after_anchor_def split: prod.splits sum.splits)
  from syncEach_ran [OF loop] obtain cs1 where w2: "w2 = ran cs1 w1" by blast
  define w3 where "w3 = ran (cs1 @ removed_cmds (map todo_id ts) tm1) w1"
  obtain cs2 where ac: "anchor_close e a ts w3 = ran cs2 w3"
    using anchor_close_ran by blast
  from save have "saveMapping e
        (m1\<lparr>todos := dict_set sid (filter (\<lambda>p. fst p \<in> todo_id ` set ts) tm1) (todos m1)\<rparr>)
        (ran cs2 w3) = (Inr m', w')"
    by (simp add: w2 w3_def [symmetric] ac)
  from saveMapping_ok [OF this] have
    "m' = m1\<lparr>todos := dict_set sid (filter (\<lambda>p. fst p \<in> todo_id ` set ts) tm1) (todos m1),
              lastSync := date_now e (trace w1 @ map Ran (cs1 @ removed_cmds (map todo_id ts) tm1 @ cs2))\<rparr>"
    and "trace w' = trace w1 @ map Ran (cs1 @ removed_cmds (map todo_id ts) tm1 @ cs2)
                      @ [Wrote (stringify m')]"
    and "mapping_file w' = FDoc (stringify m')"
    by (simp_all add: w3_def)
  moreover have "anchor_close e a ts (ran (cs1 @ removed_cmds (map todo_id ts) tm1) w1)
             = ran (cs1 @ removed_cmds (map todo_id ts) tm1 @ cs2) w1"
    using ac by (simp add: w3_def)
  ultimately show ?thesis using loop w2 by blast
qed


subsection \<open>Reading back leaves the file alone\<close>



subsection \<open>What a forward sync does to a correlation\<close>







lemma stringify_loaded: "mapping_file w = FDoc j \<Longrightarrow> stringify (loaded w) = j"
  by (simp add: loaded_def)




subsection \<open>A sync that finds every task correlated\<close>

lemma ran_inject: "ran cs w = ran cs' w \<longleftrightarrow> cs = cs'"
proof
  assume "ran cs w = ran cs' w"
  then have "trace (ran cs w) = trace (ran cs' w)" by simp
  then have "map Ran cs = map Ran cs'" by simp
  then show "cs = cs'" by (simp add: inj_map_eq_map inj_on_def)
qed simp

lemma anchor_close_no_create:
  assumes "anchor_close e a ts w = ran cs w"
  shows "\<forall>c\<in>set cs. \<not> is_create c"
proof (cases "allComplete ts \<and> ts \<noteq> []")
  case True
  let ?tail = "if bd e (trace w) (BdUpdateNotes a (summary_of ts)) = ExitFailure then []
               else [BdClose a (summary_of ts)]"
  from True have "anchor_close e a ts w = ran (BdUpdateNotes a (summary_of ts) # ?tail) w"
    by (simp add: anchor_close_def closeSessionIssue_eq)
  with assms have "cs = BdUpdateNotes a (summary_of ts) # ?tail" by (simp add: ran_inject)
  then show ?thesis by simp
next
  case False
  then have "anchor_close e a ts w = ran [] w" by (auto simp: anchor_close_def)
  with assms have "ran cs w = ran [] w" by (simp only:)
  then have "cs = []" by (simp only: ran_inject)
  then show ?thesis by simp
qed

lemma update_cmds_no_create: "\<forall>c\<in>set (update_cmds tm ts). \<not> is_create c"
  by (induction ts) (auto simp: update_cmd_def)

lemma removed_cmds_no_create: "\<forall>c\<in>set (removed_cmds seen es). \<not> is_create c"
  by (auto simp: removed_cmds_def)

lemma syncEach_lookup_kept:
  "syncEach e a ts tm w = (Inr tm', w') \<Longrightarrow> truthy (js_lookup of_id tm k) \<Longrightarrow>
     js_lookup of_id tm' k = js_lookup of_id tm k"
proof (induction ts arbitrary: tm w)
  case Nil
  then show ?case by simp
next
  case (Cons t ts)
  from Cons.prems(1) show ?case
  proof (cases rule: syncEach_step)
    case update
    from Cons.IH [OF update(2) Cons.prems(2)] show ?thesis .
  next
    case (create b)
    from create(1) Cons.prems(2) have "k \<noteq> todo_id t" by auto
    then have same: "js_lookup of_id (dict_set (todo_id t) b tm) k = js_lookup of_id tm k"
      by (simp add: js_lookup_def dict_get_set)
    with Cons.prems(2) have "truthy (js_lookup of_id (dict_set (todo_id t) b tm) k)" by simp
    from Cons.IH [OF create(3) this] same show ?thesis by simp
  qed
qed

text \<open>When every create answers with a non-empty id, the loop leaves every task correlated.\<close>

lemma syncEach_all_truthy:
  assumes "\<And>h c j. bd e h c = Stdout (Some j) \<Longrightarrow> is_create c \<Longrightarrow> truthy (of_id (issue_id j))"
  shows "syncEach e a ts tm w = (Inr tm', w') \<Longrightarrow>
     \<forall>t\<in>set ts. truthy (js_lookup of_id tm' (todo_id t))"
proof (induction ts arbitrary: tm w)
  case Nil
  then show ?case by simp
next
  case (Cons t ts)
  from Cons.prems(1) show ?case
  proof (cases rule: syncEach_step)
    case update
    from syncEach_lookup_kept [OF update(2) update(1)] update(1)
    have "truthy (js_lookup of_id tm' (todo_id t))" by simp
    with Cons.IH [OF update(2)] show ?thesis by simp
  next
    case (create b)
    from createBeadsIssue_ok [OF create(2)] obtain r where
      "bd e (trace w) (create_cmd a t) = Stdout (Some r)" "issue_id r = b" by blast
    with assms [of "trace w" "create_cmd a t" r] have "truthy (of_id b)"
      by (simp add: create_cmd_def)
    then have "truthy (js_lookup of_id (dict_set (todo_id t) b tm) (todo_id t))"
      by (simp add: js_lookup_def dict_get_set)
    from syncEach_lookup_kept [OF create(3) this] this
    have "truthy (js_lookup of_id tm' (todo_id t))" by simp
    with Cons.IH [OF create(3)] show ?thesis by simp
  qed
qed

lemma lookup_defined_filter:
  assumes "truthy (js_lookup of_id tm k)" and "P k"
  shows "js_lookup Str (defined_entries (filter (\<lambda>p. P (fst p)) tm)) k = js_lookup of_id tm k"
proof (cases "dict_get tm k")
  case None
  with assms(2) have "dict_get (filter (\<lambda>p. P (fst p)) tm) k = None"
    by (simp add: dict_get_filter_keep)
  then have "dict_get (defined_entries (filter (\<lambda>p. P (fst p)) tm)) k = None"
    by (rule dict_get_defined_None)
  with None show ?thesis by (simp add: js_lookup_def)
next
  case (Some v)
  with assms(1) obtain i where v: "v = Some i" by (auto simp: truthy_lookup)
  from Some assms(2) v have "dict_get (filter (\<lambda>p. P (fst p)) tm) k = Some (Some i)"
    by (simp add: dict_get_filter_keep)
  then have "dict_get (defined_entries (filter (\<lambda>p. P (fst p)) tm)) k = Some i"
    by (rule dict_get_defined_Some)
  with Some v show ?thesis by (simp add: js_lookup_def of_id_def)
qed

lemma sync_ok_final_doc:
  assumes run: "syncTodosToBeads e sid ts w = (Inr (), w')"
  shows "\<exists>a m1 w1 tm1 cs1 d.
           sync_anchor e sid w = (Inr (a, m1), w1)
         \<and> syncEach e a ts (session_map m1 sid) w1 = (Inr tm1, ran cs1 w1)
         \<and> mapping_file w' = FDoc d
         \<and> dict_get (json_todos d) sid
             = Some (defined_entries (filter (\<lambda>p. fst p \<in> todo_id ` set ts) tm1))"
proof -
  from run obtain a m1 w1 where
    anchor: "sync_anchor e sid w = (Inr (a, m1), w1)"
    and rest: "sync_after_anchor e sid ts a m1 w1 = (Inr (), w')"
    by (auto simp: syncTodosToBeads_after_anchor split: prod.splits sum.splits)
  from sync_after_anchor_ok [OF rest] obtain tm1 cs1 cs2 m' where
    loop: "syncEach e a ts (session_map m1 sid) w1 = (Inr tm1, ran cs1 w1)"
    and m': "m' = m1\<lparr>todos := dict_set sid (filter (\<lambda>p. fst p \<in> todo_id ` set ts) tm1) (todos m1),
                     lastSync := date_now e (trace w1 @ map Ran (cs1 @ removed_cmds (map todo_id ts) tm1 @ cs2))\<rparr>"
    and f: "mapping_file w' = FDoc (stringify m')"
    by blast
  from m' have "dict_get (todos m') sid = Some (filter (\<lambda>p. fst p \<in> todo_id ` set ts) tm1)"
    by (simp add: dict_get_set)
  then have "dict_get (json_todos (stringify m')) sid
      = Some (defined_entries (filter (\<lambda>p. fst p \<in> todo_id ` set ts) tm1))"
    by (simp add: json_todos_stringify)
  with anchor loop f show ?thesis by blast
qed

lemma keys_defined_filter:
  "fst ` set (defined_entries (filter (\<lambda>p. fst p \<in> S) tm)) \<subseteq> S"
  by (auto simp: set_defined_entries)

lemma second_sync_unchanged:
  assumes doc: "mapping_file w1 = FDoc d1"
      and tm: "dict_get (json_todos d1) sid = Some tm"
      and keys: "fst ` set tm \<subseteq> todo_id ` set ts"
      and found: "anchor_found e sid w1"
      and all: "\<forall>t\<in>set ts. truthy (js_lookup Str tm (todo_id t))"
      and second: "syncTodosToBeads e sid ts w1 = (Inr (), w2)"
  shows "\<exists>a cs d2. events_since w1 w2
               = Ran (BdShow a) # map Ran (update_cmds (map (\<lambda>(t, i). (t, Some i)) tm) ts)
                   @ map Ran cs @ [Wrote d2]
           \<and> (\<forall>c\<in>set cs. \<not> is_create c)
           \<and> mapping_file w2 = FDoc d2 \<and> d2 = d1\<lparr>json_lastSync := json_lastSync d2\<rparr>"
proof -
  let ?a = "js_lookup of_id (sessions (loaded w1)) sid"
  let ?w = "ran [BdShow ?a] w1"
  let ?tm = "map (\<lambda>(t, i). (t, Some i)) tm"
  have m: "loaded w1 = parse_mapping d1" using doc by (simp add: loaded_def)
  have sm: "session_map (loaded w1) sid = ?tm"
    using tm by (simp add: m session_map_parse json_session_map_def)
  have tds: "dict_get (todos (loaded w1)) sid = Some ?tm"
    using tm by (simp add: m todos_parse)
  from all have all': "\<forall>t\<in>set ts. truthy (js_lookup of_id ?tm (todo_id t))"
    by (simp add: lookup_parsed)
  from getOrCreate_found [OF found] second
  have rest: "sync_after_anchor e sid ts ?a (loaded w1) ?w = (Inr (), w2)"
    by (simp add: syncTodosToBeads_after_anchor)
  from sync_after_anchor_ok [OF rest] obtain tm1 cs1 cs2 m' where
    loop: "syncEach e ?a ts (session_map (loaded w1) sid) ?w = (Inr tm1, ran cs1 ?w)"
    and ac: "anchor_close e ?a ts (ran (cs1 @ removed_cmds (map todo_id ts) tm1) ?w)
           = ran (cs1 @ removed_cmds (map todo_id ts) tm1 @ cs2) ?w"
    and m': "m' = (loaded w1)\<lparr>todos := dict_set sid (filter (\<lambda>p. fst p \<in> todo_id ` set ts) tm1)
                                 (todos (loaded w1)),
                     lastSync := date_now e (trace ?w @ map Ran (cs1 @ removed_cmds (map todo_id ts) tm1 @ cs2))\<rparr>"
    and tr: "trace w2 = trace ?w
               @ map Ran (cs1 @ removed_cmds (map todo_id ts) tm1 @ cs2) @ [Wrote (stringify m')]"
    and f: "mapping_file w2 = FDoc (stringify m')"
    by blast
  from loop have l: "syncEach e ?a ts ?tm ?w = (Inr tm1, ran cs1 ?w)"
    by (simp only: sm)
  have "(Inr tm1 :: error + string option dict, ran cs1 ?w) = (Inr ?tm, ran (update_cmds ?tm ts) ?w)"
    by (rule trans [OF l [symmetric] syncEach_all_existing [OF all']])
  then have tm1: "tm1 = ?tm" and "ran cs1 ?w = ran (update_cmds ?tm ts) ?w"
    by (simp_all only: prod.inject sum.inject)
  then have cs1: "cs1 = update_cmds ?tm ts" by (simp only: ran_inject)
  have kk: "fst ` set ?tm \<subseteq> todo_id ` set ts" using keys by force
  have keep: "filter (\<lambda>p. fst p \<in> todo_id ` set ts) ?tm = ?tm"
    using kk by (intro filter_True) auto
  have none: "removed_cmds (map todo_id ts) ?tm = []"
    using kk by (auto simp: removed_cmds_def filter_empty_conv)
  from m' tds have "m' = (loaded w1)\<lparr>lastSync := lastSync m'\<rparr>"
    by (simp add: tm1 keep dict_set_same)
  then have "stringify m' = stringify ((parse_mapping d1)\<lparr>lastSync := lastSync m'\<rparr>)"
    by (simp add: m)
  also have "\<dots> = d1\<lparr>json_lastSync := lastSync m'\<rparr>"
    by (simp add: stringify_lastSync)
  finally have s: "stringify m' = d1\<lparr>json_lastSync := lastSync m'\<rparr>" .
  then have d2: "stringify m' = d1\<lparr>json_lastSync := json_lastSync (stringify m')\<rparr>"
    by (simp add: stringify_def)
  from ac have "anchor_close e ?a ts (ran (cs1 @ removed_cmds (map todo_id ts) tm1) ?w)
      = ran cs2 (ran (cs1 @ removed_cmds (map todo_id ts) tm1) ?w)"
    by simp
  from anchor_close_no_create [OF this] have nc: "\<forall>c\<in>set cs2. \<not> is_create c" .
  from tr have "trace w2 = trace w1
      @ (Ran (BdShow ?a) # map Ran (update_cmds ?tm ts) @ map Ran cs2 @ [Wrote (stringify m')])"
    by (simp add: cs1 tm1 none)
  then have "events_since w1 w2
      = Ran (BdShow ?a) # map Ran (update_cmds ?tm ts) @ map Ran cs2 @ [Wrote (stringify m')]"
    by (rule events_since_append)
  with nc f d2 show ?thesis by blast
qed

subsection \<open>Evaluation\<close>

text \<open>The defining equations that evaluate a run on concrete inputs.\<close>

lemmas eval_defs = digits10.simps syncTodosToBeads_def loadMapping_def readAndParse_def
  getOrCreateSessionIssue_def createSessionIssue_def saveMapping_def createBeadsIssue_def
  readTodosFromBeads_def updateBeadsIssue_def closeSessionIssue_def sh_json_def sh_quiet_def
  truthy_def dict_get_def dict_set_def array_index_def decimal_def digit_of_def js_lookup_def
  of_id_def object_prototype_keys_def stringify_def parse_mapping_def defined_entries_def
  allComplete_def priority_to_beads_def PRIORITY_TO_BEADS_def status_to_beads_def STATUS_TO_BEADS_def
  priority_from_beads_def PRIORITY_FROM_BEADS_def beadsIssueToTodo_def
  close_reason_def summary_of_def emptyMapping_def Let_def loaded_def session_map_def
  json_session_map_def correlation_def sync_anchor_def followed_def shows_before_def
  events_since_def anchor_found_def shown_def
  healthy_def failing_create_def fresh_def todo_a_def todo_b_def todo_c_def issue_of_def
  epic0_def doc0_def doc1_def synced_def create_cmd_def lost_anchor_def notes_rejected_def
  close_rejected_def no_id_def read_back_def write_cut_def doc_empty_id_def unlinked_def

section \<open>Forward synchronisation: failures and persistence\<close>







section \<open>Correlations across calls\<close>




section \<open>Repeating a forward sync\<close>

text \<open>
  Claim C4 says that a second forward sync with the same task list issues no create and
  leaves the document unchanged but for \<open>lastSync\<close>, every task having a correlation
  already. The anchor resolver decides otherwise when \<^verbatim>\<open>bd show\<close> does not find the recorded
  anchor: it creates a new anchor and resets the todo map, and every task gets a new issue;
  and a task whose issue was created without an id, or with an empty one, has no
  correlation after the first call. As amended: when both calls return normally, the
  tracker answers every create with an issue that has a non-empty id and the second call
  finds the recorded anchor, then after the first call every task whose id names no
  property of \<^verbatim>\<open>Object.prototype\<close> has a correlation with a non-empty issue id, the second
  call runs no \<^verbatim>\<open>bd create\<close>, and the document it persists is the one it found but for
  \<open>lastSync\<close>.
\<close>

theorem second_sync_creates_nothing:
  assumes first: "syncTodosToBeads e sid ts w = (Inr (), w1)"
      and second: "syncTodosToBeads e sid ts w1 = (Inr (), w2)"
      and found: "anchor_found e sid w1"
      and ids: "\<forall>h c j. bd e h c = Stdout (Some j) \<and> is_create c \<longrightarrow> truthy (of_id (issue_id j))"
  shows "\<exists>d1 d2. mapping_file w1 = FDoc d1
           \<and> (\<forall>t\<in>set ts. todo_id t \<notin> set object_prototype_keys \<longrightarrow>
                 (\<exists>i. correlation d1 sid (todo_id t) = Some i \<and> i \<noteq> []))
           \<and> (\<forall>c. Ran c \<in> set (events_since w1 w2) \<longrightarrow> \<not> is_create c)
           \<and> mapping_file w2 = FDoc d2 \<and> d2 = d1\<lparr>json_lastSync := json_lastSync d2\<rparr>"
proof -
  from sync_ok_final_doc [OF first] obtain a m1 w0 tm1 cs1 d1 where
    loop: "syncEach e a ts (session_map m1 sid) w0 = (Inr tm1, ran cs1 w0)"
    and doc: "mapping_file w1 = FDoc d1"
    and tm: "dict_get (json_todos d1) sid
               = Some (defined_entries (filter (\<lambda>p. fst p \<in> todo_id ` set ts) tm1))"
    by blast
  let ?tm = "defined_entries (filter (\<lambda>p. fst p \<in> todo_id ` set ts) tm1)"
  from ids have "\<And>h c j. bd e h c = Stdout (Some j) \<Longrightarrow> is_create c \<Longrightarrow> truthy (of_id (issue_id j))"
    by blast
  from syncEach_all_truthy [OF this loop]
  have t1: "\<forall>t\<in>set ts. truthy (js_lookup of_id tm1 (todo_id t))" by simp
  have all: "\<forall>t\<in>set ts. truthy (js_lookup Str ?tm (todo_id t))"
  proof
    fix t assume t: "t \<in> set ts"
    with t1 have "truthy (js_lookup of_id tm1 (todo_id t))" by simp
    moreover from t have "todo_id t \<in> todo_id ` set ts" by simp
    ultimately show "truthy (js_lookup Str ?tm (todo_id t))"
      using lookup_defined_filter [of tm1 "todo_id t" "\<lambda>k. k \<in> todo_id ` set ts"] by simp
  qed
  have keys: "fst ` set ?tm \<subseteq> todo_id ` set ts" by (rule keys_defined_filter)
  from second_sync_unchanged [OF doc tm keys found all second] obtain b cs d2 where
    ev: "events_since w1 w2
           = Ran (BdShow b) # map Ran (update_cmds (map (\<lambda>(t, i). (t, Some i)) ?tm) ts)
               @ map Ran cs @ [Wrote d2]"
    and nc: "\<forall>c\<in>set cs. \<not> is_create c"
    and d2: "mapping_file w2 = FDoc d2" "d2 = d1\<lparr>json_lastSync := json_lastSync d2\<rparr>"
    by blast
  have "\<forall>c. Ran c \<in> set (events_since w1 w2) \<longrightarrow> \<not> is_create c"
    using nc update_cmds_no_create [of "map (\<lambda>(t, i). (t, Some i)) ?tm" ts] by (auto simp: ev)
  moreover have "\<forall>t\<in>set ts. todo_id t \<notin> set object_prototype_keys \<longrightarrow>
                 (\<exists>i. correlation d1 sid (todo_id t) = Some i \<and> i \<noteq> [])"
  proof (intro ballI impI)
    fix t assume "t \<in> set ts" and "todo_id t \<notin> set object_prototype_keys"
    with all have "\<exists>i. dict_get ?tm (todo_id t) = Some i \<and> i \<noteq> []"
      by (auto simp: js_lookup_def truthy_def split: option.splits if_splits)
    with tm show "\<exists>i. correlation d1 sid (todo_id t) = Some i \<and> i \<noteq> []"
      by (simp add: correlation_def json_session_map_def)
  qed
  ultimately show ?thesis using doc d2 by blast
qed

theorem second_sync_creates_nothing_witness:
  "syncTodosToBeads healthy ''session-1234'' [todo_a] fresh = (Inr (), synced)
   \<and> fst (syncTodosToBeads healthy ''session-1234'' [todo_a] synced) = Inr ()
   \<and> anchor_found healthy ''session-1234'' synced
   \<and> correlation doc1 ''session-1234'' (todo_id todo_a) = Some ''bd-2''
   \<and> events_since synced (snd (syncTodosToBeads healthy ''session-1234'' [todo_a] synced))
       = [Ran (BdShow (Str ''bd-0'')), Ran (BdUpdateStatus (Str ''bd-2'') (Str ''open'')),
          Wrote (doc1\<lparr>json_lastSync := 1006\<rparr>)]
   \<and> mapping_file synced = FDoc doc1
   \<and> mapping_file (snd (syncTodosToBeads healthy ''session-1234'' [todo_a] synced))
       = FDoc (doc1\<lparr>json_lastSync := 1006\<rparr>)
   \<and> (\<exists>d1 d2. mapping_file synced = FDoc d1
         \<and> mapping_file (snd (syncTodosToBeads healthy ''session-1234'' [todo_a] synced)) = FDoc d2
         \<and> d2 = d1\<lparr>json_lastSync := json_lastSync d2\<rparr>)"
proof -
  have h1: "syncTodosToBeads healthy ''session-1234'' [todo_a] fresh = (Inr (), synced)"
    by (simp add: eval_defs)
  have ok: "fst (syncTodosToBeads healthy ''session-1234'' [todo_a] synced) = Inr ()"
    by (simp add: eval_defs)
  then have h2: "syncTodosToBeads healthy ''session-1234'' [todo_a] synced
      = (Inr (), snd (syncTodosToBeads healthy ''session-1234'' [todo_a] synced))"
    by (metis prod.collapse)
  have h3: "anchor_found healthy ''session-1234'' synced" by (simp add: eval_defs)
  have h4: "\<forall>h c j. bd healthy h c = Stdout (Some j) \<and> is_create c \<longrightarrow> truthy (of_id (issue_id j))"
    by (auto simp: healthy_def issue_of_def truthy_def of_id_def split: cmd.splits)
  have c: "correlation doc1 ''session-1234'' (todo_id todo_a) = Some ''bd-2''"
    by (simp add: eval_defs)
  have ev: "events_since synced (snd (syncTodosToBeads healthy ''session-1234'' [todo_a] synced))
       = [Ran (BdShow (Str ''bd-0'')), Ran (BdUpdateStatus (Str ''bd-2'') (Str ''open'')),
          Wrote (doc1\<lparr>json_lastSync := 1006\<rparr>)]"
    by (simp add: eval_defs)
  have f: "mapping_file synced = FDoc doc1
     \<and> mapping_file (snd (syncTodosToBeads healthy ''session-1234'' [todo_a] synced))
       = FDoc (doc1\<lparr>json_lastSync := 1006\<rparr>)"
    by (simp add: eval_defs)
  from second_sync_creates_nothing [OF h1 h2 h3 h4] h1 ok h3 c ev f show ?thesis by blast
qed

text \<open>
  A second call that creates again: under the tracker that shows no issue, and under the
  tracker whose creates answer without an id, where the first call records nothing for the
  task.
\<close>

theorem second_sync_creates_counterexample:
  "syncTodosToBeads lost_anchor ''session-1234'' [todo_a] fresh = (Inr (), synced)
   \<and> correlation doc1 ''session-1234'' (todo_id todo_a) = Some ''bd-2''
   \<and> syncTodosToBeads lost_anchor ''session-1234'' [todo_a] synced
      = (Inr (),
         \<lparr>mapping_file = FDoc \<lparr>json_sessions = [(''session-1234'', ''bd-5'')],
                                json_todos = [(''session-1234'', [(''a'', ''bd-7'')])],
                                json_lastSync = 1008\<rparr>,
          trace = trace synced @
            [Ran (BdShow (Str ''bd-0'')), Ran epic0,
             Wrote \<lparr>json_sessions = [(''session-1234'', ''bd-5'')],
                    json_todos = [(''session-1234'', [])], json_lastSync = 1006\<rparr>,
             Ran (create_cmd (Str ''bd-5'') todo_a),
             Wrote \<lparr>json_sessions = [(''session-1234'', ''bd-5'')],
                    json_todos = [(''session-1234'', [(''a'', ''bd-7'')])],
                    json_lastSync = 1008\<rparr>]\<rparr>)
   \<and> is_create epic0 \<and> is_create (create_cmd (Str ''bd-5'') todo_a)
   \<and> syncTodosToBeads no_id ''session-1234'' [todo_a] fresh
      = (Inr (),
         \<lparr>mapping_file = FDoc (doc0\<lparr>json_lastSync := 1003\<rparr>),
          trace = [Ran epic0, Wrote doc0, Ran (create_cmd (Str ''bd-0'') todo_a),
                   Wrote (doc0\<lparr>json_lastSync := 1003\<rparr>)]\<rparr>)
   \<and> anchor_found no_id ''session-1234''
        \<lparr>mapping_file = FDoc (doc0\<lparr>json_lastSync := 1003\<rparr>),
         trace = [Ran epic0, Wrote doc0, Ran (create_cmd (Str ''bd-0'') todo_a),
                  Wrote (doc0\<lparr>json_lastSync := 1003\<rparr>)]\<rparr>
   \<and> syncTodosToBeads no_id ''session-1234'' [todo_a]
        \<lparr>mapping_file = FDoc (doc0\<lparr>json_lastSync := 1003\<rparr>),
         trace = [Ran epic0, Wrote doc0, Ran (create_cmd (Str ''bd-0'') todo_a),
                  Wrote (doc0\<lparr>json_lastSync := 1003\<rparr>)]\<rparr>
      = (Inr (),
         \<lparr>mapping_file = FDoc (doc0\<lparr>json_lastSync := 1006\<rparr>),
          trace = [Ran epic0, Wrote doc0, Ran (create_cmd (Str ''bd-0'') todo_a),
                   Wrote (doc0\<lparr>json_lastSync := 1003\<rparr>),
                   Ran (BdShow (Str ''bd-0'')), Ran (create_cmd (Str ''bd-0'') todo_a),
                   Wrote (doc0\<lparr>json_lastSync := 1006\<rparr>)]\<rparr>)"
  by (simp add: eval_defs)

end
